theory Spec2Isabelle
  imports Main "HOL-Library.Word" "HOL-Library.Multiset"
begin

section \<open>Sparse memory maps\<close>

text \<open>
  The programmer keeps every firmware image (a parsed .hex file, the dump of a device) as
  a \<^verbatim>\<open>MemoryMap\<close> of the \<^verbatim>\<open>nrf-intel-hex\<close> package: a JavaScript \<^verbatim>\<open>Map\<close> from a start
  address to a \<^verbatim>\<open>Uint8Array\<close>. The package is a dependency and not part of the sources
  under study, so its operations are modelled from the specification (sections 4.1 and
  4.2). A memory map is the list of its blocks in insertion order; addresses are natural
  numbers, bytes are 8-bit words.
\<close>

type_synonym byte = "8 word"
type_synonym block = "nat \<times> byte list"
type_synonym MemoryMap = "block list"

text \<open>
  The byte a map holds at an address: the byte of the first block that covers it.
\<close>

fun byteAt :: "MemoryMap \<Rightarrow> nat \<Rightarrow> byte option" where
  "byteAt [] a = None"
| "byteAt ((s, bs) # m) a =
     (if s \<le> a \<and> a < s + length bs then Some (bs ! (a - s)) else byteAt m a)"

text \<open>Every address at which a map has a byte, block by block.\<close>

definition addresses :: "MemoryMap \<Rightarrow> nat list" where
  "addresses m = concat (map (\<lambda>(s, bs). [s..<s + length bs]) m)"

text \<open>
  Modelled from the spec: \<^verbatim>\<open>MemoryMap.contains\<close> of the missing \<^verbatim>\<open>nrf-intel-hex\<close> package.
  ``Returns true iff for every byte present in other, the same address holds a byte in
  self with an equal value; addresses absent in other are not checked.''
\<close>

definition contains :: "MemoryMap \<Rightarrow> MemoryMap \<Rightarrow> bool" where
  "contains self other = list_all (\<lambda>a. byteAt self a = byteAt other a) (addresses other)"

text \<open>
  Modelled from the spec: \<^verbatim>\<open>MemoryMap.slice(address, length)\<close> of the missing package.
  ``Returns a new map containing only the bytes that fall in [address, address + length),
  trimming boundary blocks; byte ranges with no data are simply absent.''
\<close>

definition sliceBlock :: "nat \<Rightarrow> nat \<Rightarrow> block \<Rightarrow> block" where
  "sliceBlock address len b =
     (let sliceStart = max address (fst b);
          sliceEnd = min (address + len) (fst b + length (snd b))
      in (sliceStart, take (sliceEnd - sliceStart) (drop (sliceStart - fst b) (snd b))))"

definition slice :: "MemoryMap \<Rightarrow> nat \<Rightarrow> nat \<Rightarrow> MemoryMap" where
  "slice m address len = filter (\<lambda>b. snd b \<noteq> []) (map (sliceBlock address len) m)"

text \<open>
  Modelled from the spec: \<^verbatim>\<open>MemoryMap.overlapMemoryMaps\<close> of the missing package. The
  address space is cut at every block boundary of every input map; each piece between
  two consecutive cuts that some map covers is reported with the ordered list of the
  contributions (source identifier and bytes), in the order of the input sequence.
\<close>

fun blockAt :: "MemoryMap \<Rightarrow> nat \<Rightarrow> block option" where
  "blockAt [] a = None"
| "blockAt (b # m) a =
     (if fst b \<le> a \<and> a < fst b + length (snd b) then Some b else blockAt m a)"

definition cutPoints :: "MemoryMap list \<Rightarrow> nat list" where
  "cutPoints ms =
     sort (remdups (concat (map (\<lambda>b. [fst b, fst b + length (snd b)]) (concat ms))))"

definition segment :: "MemoryMap \<Rightarrow> nat \<Rightarrow> nat \<Rightarrow> byte list option" where
  "segment m lo hi =
     (case blockAt m lo of
        None \<Rightarrow> None
      | Some b \<Rightarrow> Some (take (hi - lo) (drop (lo - fst b) (snd b))))"

type_synonym overlaps = "(nat \<times> (string \<times> byte list) list) list"

definition overlapMemoryMaps :: "(string \<times> MemoryMap) list \<Rightarrow> overlaps" where
  "overlapMemoryMaps memMaps =
     (let cuts = cutPoints (map snd memMaps)
      in filter (\<lambda>ov. snd ov \<noteq> [])
           (map (\<lambda>(lo, hi).
                   (lo, List.map_filter
                          (\<lambda>(ident, m). map_option (Pair ident) (segment m lo hi)) memMaps))
                (zip cuts (tl cuts))))"

text \<open>
  Modelled from the spec: \<^verbatim>\<open>MemoryMap.flattenOverlaps\<close> of the missing package. ``Resolves
  each overlapping range by taking the last (highest-priority) contributor's bytes;
  ranges with a single contributor pass through unchanged.''
\<close>

definition flattenOverlaps :: "overlaps \<Rightarrow> MemoryMap" where
  "flattenOverlaps ovs =
     List.map_filter
       (\<lambda>(a, cs). case rev cs of [] \<Rightarrow> None | c # _ \<Rightarrow> Some (a, snd c)) ovs"

text \<open>
  Modelled from the spec: \<^verbatim>\<open>MemoryMap.paginate(pageSize)\<close> of the missing package.
  ``Re-buckets the map into blocks aligned to pageSize boundaries; any address not
  covered by input data inside a touched page is not synthesized.'' Every block is cut
  at the page boundaries it crosses. A page size of zero never reaches \<^verbatim>\<open>paginate\<close>
  (\<^verbatim>\<open>write\<close> returns before); the model leaves the block whole there.
\<close>

function splitPages :: "nat \<Rightarrow> nat \<Rightarrow> byte list \<Rightarrow> block list" where
  "splitPages pageSize a bs =
     (if bs = [] then []
      else if pageSize = 0 then [(a, bs)]
      else let n = pageSize - a mod pageSize
           in (a, take n bs) # splitPages pageSize (a + n) (drop n bs))"
  by pat_completeness auto
termination
proof (relation "measure (\<lambda>(p, a, bs). length bs)")
  fix pageSize a :: nat and bs :: "byte list" and n
  assume "bs \<noteq> []" "pageSize \<noteq> 0" "n = pageSize - a mod pageSize"
  moreover from \<open>pageSize \<noteq> 0\<close> have "a mod pageSize < pageSize" by simp
  ultimately show "((pageSize, a + n, drop n bs), (pageSize, a, bs))
      \<in> measure (\<lambda>(p, a, bs). length bs)"
    by (cases bs) auto
qed simp

definition paginate :: "MemoryMap \<Rightarrow> nat \<Rightarrow> MemoryMap" where
  "paginate m pageSize = concat (map (\<lambda>b. splitPages pageSize (fst b) (snd b)) m)"


section \<open>Regions, device information and the application state\<close>

text \<open>
  \<^verbatim>\<open>RegionName\<close> and \<^verbatim>\<open>RegionColor\<close> are tables of constants of \<^verbatim>\<open>lib/util/regions\<close>,
  which is not among the sources; only the identity of their entries matters. A region
  is an Immutable.js record; its addresses and sizes are JavaScript numbers holding
  integers, modelled as \<open>int\<close> (a size computed by subtraction can be negative).
\<close>

datatype RegionName = NONE | APPLICATION | SOFTDEVICE | BOOTLOADER | MBR | UICR

datatype RegionColor =
  Color_NONE | Color_APPLICATION | Color_SOFTDEVICE | Color_BOOTLOADER | Color_MBR | Color_UICR

record Region =
  name :: RegionName
  startAddress :: int
  regionSize :: int
  color :: RegionColor
  fileNames :: "string list"

text \<open>
  The device metadata record kept under \<^verbatim>\<open>target.deviceInfo\<close>, with the fields the sources
  read from it.
\<close>

record DeviceInfo =
  family :: nat
  romSize :: int
  pageSize :: int
  uicrBaseAddr :: int

text \<open>
  The file part of the application state is the record of the file reducer. The target
  part has the fields that \<^verbatim>\<open>actions/jprog.js\<close> and \<^verbatim>\<open>lib/actions/fileActions.js\<close> read;
  the target's \<^verbatim>\<open>pageSize\<close> and \<^verbatim>\<open>regions\<close> carry a suffix to tell them from the fields
  of the same name above, and so does \<^verbatim>\<open>file\<close>, a reserved word here. A property that JavaScript may find \<^verbatim>\<open>undefined\<close> is an
  option.
\<close>

record FileState =
  memMaps :: "(string \<times> MemoryMap) list"
  regions :: "Region list"
  detectedRegionNames :: "RegionName set"

record TargetState =
  serialNumber :: "nat option"
  pageSize_t :: "nat option"
  memMap :: "MemoryMap option"
  regions_t :: "Region list"
  deviceInfo :: DeviceInfo

record AppState =
  file_s :: FileState
  target :: TargetState

datatype action =
    FILES_EMPTY
  | FILE_PARSE "(string \<times> MemoryMap) list"
  | FILE_REGIONS_KNOWN "Region list"
  | FILE_REGION_NAMES_KNOWN "RegionName set"
  | WRITE_PROGRESS_START
  | WRITE_PROGRESS_FINISHED

text \<open>
  The file reducer. The list of recently used files and the table of loaded files play
  no part in what follows and are left out of the record.
\<close>

definition InitialState :: FileState where
  "InitialState = \<lparr>memMaps = [], regions = [], detectedRegionNames = {}\<rparr>"

fun reducer :: "FileState \<Rightarrow> action \<Rightarrow> FileState" where
  "reducer state FILES_EMPTY = InitialState"
| "reducer state (FILE_PARSE ms) = state\<lparr>memMaps := ms\<rparr>"
| "reducer state (FILE_REGIONS_KNOWN rs) = state\<lparr>regions := rs\<rparr>"
| "reducer state (FILE_REGION_NAMES_KNOWN ns) = state\<lparr>detectedRegionNames := ns\<rparr>"
| "reducer state _ = state"

text \<open>Dispatching an action to the store runs the file reducer on the file state.\<close>

definition dispatch :: "action \<Rightarrow> AppState \<Rightarrow> AppState" where
  "dispatch a st = st\<lparr>file_s := reducer (file_s st) a\<rparr>"


section \<open>Write safety: \<^verbatim>\<open>canWrite\<close> and \<^verbatim>\<open>write\<close> of \<^verbatim>\<open>actions/jprog.js\<close>\<close>

datatype error = TypeError

definition uicrAddr :: nat where
  "uicrAddr = 0x10001000"

definition uicrSize :: nat where
  "uicrSize = 0x400"

text \<open>\<^verbatim>\<open>new MemoryMap([[uicrAddr, (new Uint8Array(uicrSize)).fill(0xFF)]])\<close>\<close>

definition blankUicr :: MemoryMap where
  "blankUicr = [(uicrAddr, replicate uicrSize 0xFF)]"

text \<open>
  \<^verbatim>\<open>canWrite(appState)\<close>. Calling \<^verbatim>\<open>contains\<close> on a \<^verbatim>\<open>target.memMap\<close> that is undefined
  raises a TypeError; the messages printed to the console are left out.
\<close>

definition canWrite :: "AppState \<Rightarrow> error + bool" where
  "canWrite appState =
     (case memMap (target appState) of
        None \<Rightarrow> Inl TypeError
      | Some targetMap \<Rightarrow>
          if contains targetMap blankUicr then Inr True
          else
            let flattenedFiles = flattenOverlaps (overlapMemoryMaps (memMaps (file_s appState)));
                uicrUpdates = slice flattenedFiles uicrAddr uicrSize
            in if \<not> contains targetMap uicrUpdates then Inr False else Inr True)"

text \<open>
  What \<^verbatim>\<open>write\<close> does to the outside: the messages it logs, the actions it dispatches and
  the call of \<^verbatim>\<open>writeHex\<close>, which hands the pages to the probe for the device with the given
  serial number. \<^verbatim>\<open>asHexString\<close> only serialises the pages, so the effect records the
  memory map that is serialised.
\<close>

datatype effect =
    LogError string
  | LogInfo string
  | Dispatch action
  | WriteHex nat MemoryMap

text \<open>JavaScript's \<^verbatim>\<open>!x\<close> on a number that may be undefined.\<close>

fun falsy :: "nat option \<Rightarrow> bool" where
  "falsy None = True"
| "falsy (Some n) = (n = 0)"

text \<open>
  \<^verbatim>\<open>write()\<close>, the thunk it returns (\<^verbatim>\<open>write\<close> alone is a reserved word here). The second
  argument tells whether the promise of \<^verbatim>\<open>checkUpToDateFiles\<close> resolves: the user may
  cancel, and a rejection, like any exception raised in the callback, is swallowed by the
  empty \<^verbatim>\<open>catch\<close>. What \<^verbatim>\<open>checkUpToDateFiles\<close> does on its own (asking the user, reloading
  files) is left out, and so is what \<^verbatim>\<open>writeHex\<close> logs and dispatches once the probe has
  answered. The pages are computed from the state that \<^verbatim>\<open>canWrite\<close> has seen.
\<close>

definition write_thunk :: "AppState \<Rightarrow> bool \<Rightarrow> error + effect list" where
  "write_thunk appState upToDate =
     (if falsy (serialNumber (target appState)) \<or> falsy (pageSize_t (target appState))
      then Inr [LogError ''Select a device before writing'']
      else
        case canWrite appState of
          Inl e \<Rightarrow> Inl e
        | Inr False \<Rightarrow>
            Inr [LogError ''Can not write in the current state. Try erasing all non-volatile memory in the target.'']
        | Inr True \<Rightarrow>
            if \<not> upToDate then Inr []
            else
              (case memMap (target appState) of
                 None \<Rightarrow> Inr []
               | Some targetMap \<Rightarrow>
                   let pages = paginate
                         (flattenOverlaps (overlapMemoryMaps (memMaps (file_s appState))))
                         (the (pageSize_t (target appState)))
                   in if \<not> contains targetMap blankUicr
                      then Inr [LogInfo ''Target's UICR is not blank, skipping UICR updates.'',
                                Dispatch WRITE_PROGRESS_START,
                                WriteHex (the (serialNumber (target appState)))
                                         (slice pages 0 uicrAddr)]
                      else Inr [Dispatch WRITE_PROGRESS_START,
                                WriteHex (the (serialNumber (target appState))) pages]))"

text \<open>The memory map handed to \<^verbatim>\<open>writeHex\<close> in a run of \<^verbatim>\<open>write\<close>, if there is one.\<close>

fun payloads :: "effect list \<Rightarrow> MemoryMap list" where
  "payloads [] = []"
| "payloads (WriteHex sn m # es) = m # payloads es"
| "payloads (e # es) = payloads es"

fun transmitted :: "error + effect list \<Rightarrow> MemoryMap list" where
  "transmitted (Inl e) = []"
| "transmitted (Inr es) = payloads es"


section \<open>Region updates of \<^verbatim>\<open>lib/actions/fileActions.js\<close>\<close>

text \<open>
  The region lists are Immutable.js lists. \<^verbatim>\<open>find\<close> is \<^const>\<open>List.find\<close>; \<^verbatim>\<open>indexOf\<close>
  gives the first index holding an equal value and -1 when there is none; an index
  below zero counts from the end of the list. \<^verbatim>\<open>remove\<close> leaves the list alone when the
  index is out of range. \<^verbatim>\<open>set\<close> beyond the end would grow the list; the sources only
  pass it the index of an element they have just found, and the model leaves the list
  alone there.
\<close>

fun indexFrom :: "int \<Rightarrow> 'a list \<Rightarrow> 'a \<Rightarrow> int" where
  "indexFrom i [] x = - 1"
| "indexFrom i (y # ys) x = (if y = x then i else indexFrom (i + 1) ys x)"

definition indexOf :: "'a list \<Rightarrow> 'a \<Rightarrow> int" where
  "indexOf xs x = indexFrom 0 xs x"

definition wrapIndex :: "'a list \<Rightarrow> int \<Rightarrow> int" where
  "wrapIndex xs i = (if i < 0 then int (length xs) + i else i)"

definition remove_at :: "'a list \<Rightarrow> int \<Rightarrow> 'a list" where
  "remove_at xs i =
     (let j = wrapIndex xs i
      in if 0 \<le> j \<and> j < int (length xs) then take (nat j) xs @ drop (nat j + 1) xs else xs)"

definition set_at :: "'a list \<Rightarrow> int \<Rightarrow> 'a \<Rightarrow> 'a list" where
  "set_at xs i v =
     (let j = wrapIndex xs i
      in if 0 \<le> j \<and> j < int (length xs) then xs[nat j := v] else xs)"

text \<open>
  JavaScript's \<^verbatim>\<open>(!end || end <= address)\<close> on a variable that starts undefined: zero
  is falsy as well.
\<close>

fun unsetOrAtMost :: "int option \<Rightarrow> int \<Rightarrow> bool" where
  "unsetOrAtMost None a = True"
| "unsetOrAtMost (Some e) a = (e = 0 \<or> e \<le> a)"

subsection \<open>\<^verbatim>\<open>updateFileBlRegion\<close>\<close>

text \<open>One round of the first \<^verbatim>\<open>forEach\<close>: the search for the end of the bootloader.\<close>

definition blEndStep :: "Region \<Rightarrow> int \<Rightarrow> int option \<Rightarrow> Region \<Rightarrow> int option" where
  "blEndStep blRegion rom blEndAddress r =
     (if name r = NONE \<and>
         startAddress r > startAddress blRegion \<and>
         startAddress r + regionSize r < rom \<and>
         unsetOrAtMost blEndAddress (startAddress r)
      then Some (startAddress r + regionSize r)
      else blEndAddress)"

text \<open>
  The second \<^verbatim>\<open>forEach\<close> walks the list as it was and removes from the current list
  every region whose name is NONE.
\<close>

definition removeNone :: "Region list \<Rightarrow> Region list" where
  "removeNone fileRegions =
     foldl (\<lambda>frs r. if name r = NONE then remove_at frs (indexOf frs r) else frs)
           fileRegions fileRegions"

text \<open>
  \<^verbatim>\<open>updateFileBlRegion()\<close>: the actions it dispatches. \<^verbatim>\<open>target.deviceInfo\<close> is taken to
  be present (the target reducer is not among the sources).
\<close>

definition updateFileBlRegion :: "AppState \<Rightarrow> action list" where
  "updateFileBlRegion st =
     (let fileRegions = regions (file_s st)
      in case List.find (\<lambda>r. name r = BOOTLOADER) fileRegions of
           None \<Rightarrow> []
         | Some blRegion \<Rightarrow>
             let blStartAddress = startAddress blRegion;
                 blEndAddress = foldl (blEndStep blRegion (romSize (deviceInfo (target st))))
                                      None fileRegions
             in case blEndAddress of
                  None \<Rightarrow> []
                | Some e \<Rightarrow>
                    let fileRegions1 = removeNone fileRegions;
                        blRegionIndex = indexOf fileRegions1 blRegion;
                        blRegion1 = blRegion\<lparr>regionSize := e - blStartAddress\<rparr>
                    in [FILE_REGIONS_KNOWN (set_at fileRegions1 blRegionIndex blRegion1)])"

subsection \<open>\<^verbatim>\<open>updateFileAppRegions\<close>\<close>

definition softDeviceMagicStart :: int where
  "softDeviceMagicStart = 0x1000"

text \<open>
  \<^verbatim>\<open>(Math.ceil(softDeviceEnd / pageSize) + k) * pageSize\<close>. With a page size of zero the
  quotient is infinite or not a number, the product is not a number and no start address
  equals it. Addresses are integers small enough for the floating-point quotient to
  round up as the exact one does.
\<close>

definition pageBoundary :: "int \<Rightarrow> int \<Rightarrow> int \<Rightarrow> int option" where
  "pageBoundary softDeviceEnd pgSize k =
     (if pgSize = 0 then None else Some ((- ((- softDeviceEnd) div pgSize) + k) * pgSize))"

definition findStart :: "Region list \<Rightarrow> int option \<Rightarrow> Region option" where
  "findStart fileRegions boundary =
     (case boundary of
        None \<Rightarrow> None
      | Some a \<Rightarrow> List.find (\<lambda>r. startAddress r = a) fileRegions)"

text \<open>
  Lines 131 to 145: with no SoftDevice in the files and one in the target, the region
  starting on the page boundary above the target's SoftDevice, or one page further, is
  given the Application label. The result is the new list when one is dispatched.
\<close>

definition relabelAppRegion ::
  "Region option \<Rightarrow> Region option \<Rightarrow> int \<Rightarrow> Region list \<Rightarrow> Region list option" where
  "relabelAppRegion fileSoftDeviceRegion targetSoftDeviceRegion pgSize fileRegions =
     (case (fileSoftDeviceRegion, targetSoftDeviceRegion) of
        (None, Some targetSd) \<Rightarrow>
          let softDeviceEnd = startAddress targetSd + regionSize targetSd;
              appRegion =
                (case findStart fileRegions (pageBoundary softDeviceEnd pgSize 0) of
                   Some r \<Rightarrow> Some r
                 | None \<Rightarrow> findStart fileRegions (pageBoundary softDeviceEnd pgSize 1))
          in (case appRegion of
                None \<Rightarrow> None
              | Some r \<Rightarrow>
                  Some (set_at fileRegions (indexOf fileRegions r)
                          (r\<lparr>name := APPLICATION, color := Color_APPLICATION\<rparr>)))
      | _ \<Rightarrow> None)"

text \<open>
  Lines 147 to 157: with no SoftDevice anywhere, the Application label is taken off
  unless the region starts at \<^const>\<open>softDeviceMagicStart\<close>.
\<close>

definition removeAppLabel ::
  "Region option \<Rightarrow> Region option \<Rightarrow> Region list \<Rightarrow> Region list option" where
  "removeAppLabel fileSoftDeviceRegion targetSoftDeviceRegion fileRegions =
     (case (fileSoftDeviceRegion, targetSoftDeviceRegion) of
        (None, None) \<Rightarrow>
          (case List.find (\<lambda>r. name r = APPLICATION) fileRegions of
             None \<Rightarrow> None
           | Some r \<Rightarrow>
               if startAddress r \<noteq> softDeviceMagicStart
               then Some (set_at fileRegions (indexOf fileRegions r)
                            (r\<lparr>name := NONE, color := Color_NONE\<rparr>))
               else None)
      | _ \<Rightarrow> None)"

text \<open>
  Lines 159 to 180: one round of the \<^verbatim>\<open>forEach\<close> that collects the detected names, the
  end of the unnamed regions below the target's bootloader and the start of the
  application.
\<close>

record Scan =
  detected :: "RegionName set"
  appStartAddress :: "int option"
  appEndAddress :: "int option"

definition scanStep :: "Region option \<Rightarrow> Scan \<Rightarrow> Region \<Rightarrow> Scan" where
  "scanStep targetBootloaderRegion sc r =
     \<lparr>detected =
        (if name r \<in> {APPLICATION, SOFTDEVICE, BOOTLOADER}
         then insert (name r) (detected sc) else detected sc),
      appStartAddress =
        (if name r = APPLICATION then Some (startAddress r) else appStartAddress sc),
      appEndAddress =
        (case targetBootloaderRegion of
           None \<Rightarrow> appEndAddress sc
         | Some bl \<Rightarrow>
             if name r = NONE \<and>
                startAddress r < startAddress bl \<and>
                unsetOrAtMost (appEndAddress sc) (startAddress r)
             then Some (startAddress r + regionSize r)
             else appEndAddress sc)\<rparr>"

definition scanRegions :: "Region option \<Rightarrow> Region list \<Rightarrow> Scan" where
  "scanRegions targetBootloaderRegion fileRegions =
     foldl (scanStep targetBootloaderRegion)
           \<lparr>detected = {}, appStartAddress = None, appEndAddress = None\<rparr> fileRegions"

text \<open>
  Lines 184 to 199: the merge. The unnamed regions below the target's bootloader are
  removed and the first Application region gets the size \<^verbatim>\<open>appEndAddress - appStartAddress\<close>.
  Were no Application region left, \<^verbatim>\<open>appRegion.set\<close> would raise a TypeError.
\<close>

definition removeNoneBelow :: "int \<Rightarrow> Region list \<Rightarrow> Region list" where
  "removeNoneBelow bound fileRegions =
     foldl (\<lambda>frs r. if name r = NONE \<and> startAddress r < bound
                     then remove_at frs (indexOf frs r) else frs)
           fileRegions fileRegions"

definition mergeAppRegions ::
  "Region option \<Rightarrow> Scan \<Rightarrow> Region list \<Rightarrow> error + Region list option" where
  "mergeAppRegions targetBootloaderRegion sc fileRegions =
     (case (targetBootloaderRegion, appStartAddress sc, appEndAddress sc) of
        (Some bl, Some appStart, Some appEnd) \<Rightarrow>
          let fileRegions1 = removeNoneBelow (startAddress bl) fileRegions
          in (case List.find (\<lambda>r. name r = APPLICATION) fileRegions1 of
                None \<Rightarrow> Inl TypeError
              | Some r \<Rightarrow>
                  Inr (Some (set_at fileRegions1 (indexOf fileRegions1 r)
                               (r\<lparr>regionSize := appEnd - appStart,
                                  color := Color_APPLICATION\<rparr>))))
      | _ \<Rightarrow> Inr None)"

text \<open>
  \<^verbatim>\<open>updateFileAppRegions()\<close>: the actions it dispatches, in order, and the exception it
  ends with, if any.
\<close>

fun known :: "Region list option \<Rightarrow> action list" where
  "known None = []"
| "known (Some rs) = [FILE_REGIONS_KNOWN rs]"

fun orElse :: "'a option \<Rightarrow> 'a \<Rightarrow> 'a" where
  "orElse None d = d"
| "orElse (Some x) d = x"

definition updateFileAppRegions :: "AppState \<Rightarrow> action list \<times> error option" where
  "updateFileAppRegions st =
     (let fileRegions = regions (file_s st);
          targetRegions = regions_t (target st);
          fileSoftDeviceRegion = List.find (\<lambda>r. name r = SOFTDEVICE) fileRegions;
          targetSoftDeviceRegion = List.find (\<lambda>r. name r = SOFTDEVICE) targetRegions;
          targetBootloaderRegion = List.find (\<lambda>r. name r = BOOTLOADER) targetRegions;
          relabelled = relabelAppRegion fileSoftDeviceRegion targetSoftDeviceRegion
                         (pageSize (deviceInfo (target st))) fileRegions;
          fileRegions1 = orElse relabelled fileRegions;
          unlabelled = removeAppLabel fileSoftDeviceRegion targetSoftDeviceRegion fileRegions1;
          fileRegions2 = orElse unlabelled fileRegions1;
          sc = scanRegions targetBootloaderRegion fileRegions2;
          before = known relabelled @ known unlabelled @ [FILE_REGION_NAMES_KNOWN (detected sc)]
      in case mergeAppRegions targetBootloaderRegion sc fileRegions2 of
           Inl e \<Rightarrow> (before, Some e)
         | Inr merged \<Rightarrow> (before @ known merged, None))"


section \<open>Example states\<close>

text \<open>
  A device description and a few application states on which the results below are
  evaluated: a device with a serial number and pages of 4 KiB, the loaded files and the
  memory read from the target.
\<close>

definition exampleDevice :: DeviceInfo where
  "exampleDevice = \<lparr>family = 1, romSize = 0x80000, pageSize = 0x1000, uicrBaseAddr = 0x10001000\<rparr>"

definition flashState :: "(string \<times> MemoryMap) list \<Rightarrow> MemoryMap option \<Rightarrow> AppState" where
  "flashState files targetMap =
     \<lparr>file_s = \<lparr>memMaps = files, regions = [], detectedRegionNames = {}\<rparr>,
      target = \<lparr>serialNumber = Some 682000001, pageSize_t = Some 0x1000, memMap = targetMap,
                regions_t = [], deviceInfo = exampleDevice\<rparr>\<rparr>"

text \<open>The target's UICR is erased.\<close>

definition state_blank :: AppState where
  "state_blank = flashState [(''app.hex'', [(0, [1, 2, 3, 4, 5, 6])])] (Some blankUicr)"

text \<open>The target has no memory map.\<close>

definition state_absent :: AppState where
  "state_absent = flashState [(''app.hex'', [(0, [1, 2, 3, 4, 5, 6])])] None"


text \<open>The file writes to the UICR a byte that differs from the target's.\<close>

definition state_mismatch :: AppState where
  "state_mismatch = flashState [(''uicr.hex'', [(0x10001000, [1])])] (Some [(0x10001000, [0])])"

text \<open>The target's UICR is in use and the file has data above the UICR only.\<close>

definition state_above :: AppState where
  "state_above = flashState [(''app.hex'', [(0x10002000, [7, 8])])] (Some [(0x10001000, [0])])"

text \<open>The target's UICR is in use and the file has data in the flash only.\<close>

definition state_match :: AppState where
  "state_match = flashState [(''app.hex'', [(0, [1, 2, 3, 4, 5, 6])])] (Some [(0x10001000, [0])])"

text \<open>
  The same state on another device: only the device information kept under the target
  changes.
\<close>

definition withDeviceInfo :: "DeviceInfo \<Rightarrow> AppState \<Rightarrow> AppState" where
  "withDeviceInfo d appState = appState\<lparr>target := (target appState)\<lparr>deviceInfo := d\<rparr>\<rparr>"

definition otherDevice :: DeviceInfo where
  "otherDevice = \<lparr>family = 2, romSize = 0x100000, pageSize = 0x400, uicrBaseAddr = 0x20000\<rparr>"

text \<open>
  The target's UICR is in use, the file has one byte at 0x10001400, the first address past
  the UICR, and the device information is that of the other device.
\<close>

definition state_past_uicr :: AppState where
  "state_past_uicr =
     withDeviceInfo otherDevice
       (flashState [(''app.hex'', [(0x10001400, [9])])] (Some [(0x10001000, [0])]))"

text \<open>
  Region lists for the region updates: a region with the colour of its name, and a state
  with the given regions of the files and of the target, on the example device (ROM of
  0x80000 bytes, pages of 0x1000 bytes).
\<close>

fun colorOf :: "RegionName \<Rightarrow> RegionColor" where
  "colorOf NONE = Color_NONE"
| "colorOf APPLICATION = Color_APPLICATION"
| "colorOf SOFTDEVICE = Color_SOFTDEVICE"
| "colorOf BOOTLOADER = Color_BOOTLOADER"
| "colorOf MBR = Color_MBR"
| "colorOf UICR = Color_UICR"

definition regionAt :: "RegionName \<Rightarrow> int \<Rightarrow> int \<Rightarrow> Region" where
  "regionAt n a sz =
     \<lparr>name = n, startAddress = a, regionSize = sz, color = colorOf n, fileNames = [''app.hex'']\<rparr>"

definition regionState :: "Region list \<Rightarrow> Region list \<Rightarrow> AppState" where
  "regionState fileRegions targetRegions =
     \<lparr>file_s = \<lparr>memMaps = [], regions = fileRegions, detectedRegionNames = {}\<rparr>,
      target = \<lparr>serialNumber = Some 682000001, pageSize_t = Some 0x1000, memMap = Some [],
                regions_t = targetRegions, deviceInfo = exampleDevice\<rparr>\<rparr>"

text \<open>A bootloader followed by a gap, and an unnamed region far below it.\<close>

definition state_bl_gap :: AppState where
  "state_bl_gap = regionState
     [regionAt NONE 0x1000 0x1000, regionAt BOOTLOADER 0x70000 0x1000, regionAt NONE 0x71000 0x1000] []"





text \<open>
  SoftDevice and bootloader in the target; in the files an unnamed region below the
  application.
\<close>

definition state_app_above_gap :: AppState where
  "state_app_above_gap = regionState
     [regionAt NONE 0x20000 0x1000, regionAt APPLICATION 0x26000 0x2000]
     [regionAt SOFTDEVICE 0x1000 0x25000, regionAt BOOTLOADER 0x78000 0x6000]"


section \<open>Memory maps: bytes, containment and slices\<close>

lemma byteAt_present: "byteAt m a \<noteq> None \<longleftrightarrow> a \<in> set (addresses m)"
  by (induction m) (auto simp: addresses_def split: if_splits)

lemma contains_iff:
  "contains self other \<longleftrightarrow> (\<forall>a v. byteAt other a = Some v \<longrightarrow> byteAt self a = Some v)"
  unfolding contains_def list_all_iff
  using byteAt_present by (metis not_None_eq)

lemma sliceBlock_covers:
  assumes "sliceBlock address len (s, bs) = (s', bs')"
  shows "(s' \<le> a \<and> a < s' + length bs') \<longleftrightarrow>
           (address \<le> a \<and> a < address + len \<and> s \<le> a \<and> a < s + length bs)"
proof -
  from assms have s': "s' = max address s"
    and l: "length bs' =
       min (length bs - (max address s - s)) (min (address + len) (s + length bs) - max address s)"
    by (auto simp: sliceBlock_def Let_def)
  show ?thesis unfolding s' l by (cases "address \<le> s") (simp_all add: max_def min_def, linarith+)
qed

lemma sliceBlock_nth:
  assumes "sliceBlock address len (s, bs) = (s', bs')"
      and "s' \<le> a" "a < s' + length bs'"
  shows "bs' ! (a - s') = bs ! (a - s)"
proof -
  from assms(1) have s': "s' = max address s"
    and bs': "bs' = take (min (address + len) (s + length bs) - s') (drop (s' - s) bs)"
    by (auto simp: sliceBlock_def Let_def)
  from assms(2,3) have "a - s' < length bs'" by linarith
  then have "bs' ! (a - s') = drop (s' - s) bs ! (a - s')"
    unfolding bs' by simp
  also have "\<dots> = bs ! ((s' - s) + (a - s'))"
  proof -
    from \<open>a - s' < length bs'\<close> have "s' - s \<le> length bs"
      unfolding bs' by simp linarith
    then show ?thesis by (rule nth_drop)
  qed
  also have "(s' - s) + (a - s') = a - s"
    using assms(2) s' by simp
  finally show ?thesis .
qed

lemma byteAt_slice:
  "byteAt (slice m address len) a =
     (if address \<le> a \<and> a < address + len then byteAt m a else None)"
proof (induction m)
  case Nil
  show ?case by (simp add: slice_def)
next
  case (Cons b m)
  obtain s bs where b: "b = (s, bs)" by (cases b)
  obtain s' bs' where sb: "sliceBlock address len (s, bs) = (s', bs')"
    by (cases "sliceBlock address len (s, bs)")
  have tl: "byteAt (slice m address len) a =
      (if address \<le> a \<and> a < address + len then byteAt m a else None)"
    by (rule Cons.IH)
  have step: "slice (b # m) address len =
      (if bs' \<noteq> [] then (s', bs') # slice m address len else slice m address len)"
    by (simp add: slice_def b sb)
  note cov = sliceBlock_covers [OF sb, of a]
  show ?case
  proof (cases "s' \<le> a \<and> a < s' + length bs'")
    case True
    then have ne: "bs' \<noteq> []" by auto
    from True cov have in_range: "address \<le> a \<and> a < address + len \<and> s \<le> a \<and> a < s + length bs"
      by simp
    have "byteAt (slice (b # m) address len) a = Some (bs' ! (a - s'))"
      using True ne by (simp add: step)
    also have "\<dots> = Some (bs ! (a - s))"
      using sliceBlock_nth [OF sb] True by simp
    finally show ?thesis using in_range by (simp add: b)
  next
    case False
    then have "byteAt (slice (b # m) address len) a = byteAt (slice m address len) a"
      by (auto simp: step)
    moreover from False cov
    have "\<not> (address \<le> a \<and> a < address + len \<and> s \<le> a \<and> a < s + length bs)"
      by simp
    ultimately show ?thesis using tl by (auto simp: b)
  qed
qed

lemma byteAt_replicate:
  "byteAt [(s, replicate n v)] a = (if s \<le> a \<and> a < s + n then Some v else None)"
  by auto

lemma uicr_end: "uicrAddr + uicrSize = 0x10001400"
  by (simp add: uicrAddr_def uicrSize_def)

lemma byteAt_blankUicr:
  "byteAt blankUicr a = (if 0x10001000 \<le> a \<and> a < 0x10001400 then Some 0xFF else None)"
  unfolding blankUicr_def byteAt_replicate uicr_end by (simp add: uicrAddr_def)

lemma contains_blankUicr:
  "contains m blankUicr \<longleftrightarrow> (\<forall>a. 0x10001000 \<le> a \<and> a < 0x10001400 \<longrightarrow> byteAt m a = Some 0xFF)"
  by (simp add: contains_iff byteAt_blankUicr)

lemma contains_uicr_slice:
  "contains m (slice f uicrAddr uicrSize) \<longleftrightarrow>
     (\<forall>a. 0x10001000 \<le> a \<and> a < 0x10001400 \<longrightarrow>
          (\<forall>v. byteAt f a = Some v \<longrightarrow> byteAt m a = Some v))"
  unfolding contains_iff byteAt_slice uicr_end by (auto simp: uicrAddr_def)

lemma not_blank: "byteAt m 0x10001000 \<noteq> Some 0xFF \<Longrightarrow> \<not> contains m blankUicr"
proof
  assume "contains m blankUicr"
  then have "(0x10001000::nat) \<le> 0x10001000 \<and> (0x10001000::nat) < 0x10001400
      \<longrightarrow> byteAt m 0x10001000 = Some 0xFF"
    unfolding contains_blankUicr by blast
  moreover assume "byteAt m 0x10001000 \<noteq> Some 0xFF"
  ultimately show False by simp
qed

lemma contains_self: "contains M M"
  by (simp add: contains_def list_all_iff)

lemma contains_empty: "contains M []"
  by (simp add: contains_def addresses_def)

lemma flatten_single:
  "bs \<noteq> [] \<Longrightarrow> flattenOverlaps (overlapMemoryMaps [(f, [(a, bs)])]) = [(a, bs)]"
  by (simp add: flattenOverlaps_def overlapMemoryMaps_def cutPoints_def segment_def
      List.map_filter_def)

text \<open>
  Claim C10. \<^verbatim>\<open>contains\<close> is reflexive, and every map contains the empty map.
\<close>

theorem contains_reflexive_bottom: "contains M M \<and> contains M []"
  by (simp add: contains_self contains_empty)

theorem contains_reflexive_bottom_witness:
  "contains [(0x10, [1, 2])] [(0x10, [1, 2])] \<and> contains [(0x10, [1, 2])] []"
  using contains_reflexive_bottom [of "[(0x10, [1, 2])]"] by simp


section \<open>The verdict of \<^verbatim>\<open>canWrite\<close>\<close>

text \<open>The verdict on the example states.\<close>

lemma canWrite_blank: "canWrite state_blank = Inr True"
  by (simp add: canWrite_def state_blank_def flashState_def contains_self contains_empty)

lemma canWrite_absent: "canWrite state_absent = Inl TypeError"
  by (simp add: canWrite_def state_absent_def flashState_def)

lemma canWrite_mismatch: "canWrite state_mismatch = Inr False"
proof -
  have nb: "\<not> contains [(0x10001000, [0])] blankUicr"
    by (rule not_blank) simp
  have sl: "slice [(0x10001000, [1::byte])] uicrAddr uicrSize = [(0x10001000, [1])]"
    by (simp add: slice_def sliceBlock_def uicrAddr_def uicrSize_def)
  have nc: "\<not> contains [(0x10001000, [0])] [(0x10001000, [1])]"
    by (simp add: contains_def addresses_def)
  show ?thesis
    by (simp add: canWrite_def state_mismatch_def flashState_def nb flatten_single sl nc)
qed

lemma canWrite_above: "canWrite state_above = Inr True"
proof -
  have nb: "\<not> contains [(0x10001000, [0])] blankUicr"
    by (rule not_blank) simp
  have sl: "slice [(0x10002000, [7, 8::byte])] uicrAddr uicrSize = []"
    by (simp add: slice_def sliceBlock_def uicrAddr_def uicrSize_def)
  show ?thesis
    by (simp add: canWrite_def state_above_def flashState_def nb flatten_single sl contains_self contains_empty)
qed

lemma canWrite_match: "canWrite state_match = Inr True"
proof -
  have nb: "\<not> contains [(0x10001000, [0])] blankUicr"
    by (rule not_blank) simp
  have sl: "slice [(0, [1, 2, 3, 4, 5, 6::byte])] uicrAddr uicrSize = []"
    by (simp add: slice_def sliceBlock_def uicrAddr_def uicrSize_def)
  show ?thesis
    by (simp add: canWrite_def state_match_def flashState_def nb flatten_single sl contains_self contains_empty)
qed

lemma pages_above: "paginate [(0x10002000, [7, 8::byte])] 0x1000 = [(0x10002000, [7, 8])]"
  by (simp add: paginate_def)

text \<open>
  Claim C1. For a target image and the flattened file image, \<^verbatim>\<open>canWrite\<close> is true exactly
  when the target holds 0xFF at every address of [0x10001000, 0x10001400), or the target
  holds, with the same value, every byte the flattened files have in that range; it is
  false otherwise.
\<close>

theorem canWrite_iff:
  assumes "memMap (target appState) = Some targetImage"
      and "flattenedFileImage = flattenOverlaps (overlapMemoryMaps (memMaps (file_s appState)))"
  shows "canWrite appState = Inr
           ((\<forall>a. 0x10001000 \<le> a \<and> a < 0x10001400 \<longrightarrow> byteAt targetImage a = Some 0xFF) \<or>
            (\<forall>a. 0x10001000 \<le> a \<and> a < 0x10001400 \<longrightarrow>
               (\<forall>v. byteAt flattenedFileImage a = Some v \<longrightarrow> byteAt targetImage a = Some v)))"
  using assms
  by (simp add: canWrite_def Let_def contains_blankUicr contains_uicr_slice)

theorem canWrite_iff_witness:
  "memMap (target state_mismatch) = Some [(0x10001000, [0])] \<and>
   flattenOverlaps (overlapMemoryMaps (memMaps (file_s state_mismatch))) = [(0x10001000, [1])] \<and>
   canWrite state_mismatch = Inr False \<and>
   \<not> ((\<forall>a. 0x10001000 \<le> a \<and> a < 0x10001400 \<longrightarrow> byteAt [(0x10001000, [0])] a = Some 0xFF) \<or>
      (\<forall>a. 0x10001000 \<le> a \<and> a < 0x10001400 \<longrightarrow>
         (\<forall>v. byteAt [(0x10001000, [1])] a = Some v \<longrightarrow> byteAt [(0x10001000, [0])] a = Some v)))"
proof -
  have m: "memMap (target state_mismatch) = Some [(0x10001000, [0])]"
    by (simp add: state_mismatch_def flashState_def)
  have f: "[(0x10001000, [1])] = flattenOverlaps (overlapMemoryMaps (memMaps (file_s state_mismatch)))"
    by (simp add: state_mismatch_def flashState_def flatten_single)
  from canWrite_iff [OF m f] canWrite_mismatch m f show ?thesis by simp
qed





section \<open>The payload of \<^verbatim>\<open>write\<close>\<close>

text \<open>
  Claim C8. When \<^verbatim>\<open>canWrite\<close> is false, \<^verbatim>\<open>write\<close> hands nothing to the probe: it logs one
  error and returns, whether or not the files are up to date.
\<close>

theorem write_refused:
  assumes "canWrite appState = Inr False"
  shows "transmitted (write_thunk appState upToDate) = [] \<and>
         (write_thunk appState upToDate = Inr [LogError ''Select a device before writing''] \<or>
          write_thunk appState upToDate =
            Inr [LogError ''Can not write in the current state. Try erasing all non-volatile memory in the target.''])"
  using assms by (simp add: write_thunk_def)

theorem write_refused_witness:
  "canWrite state_mismatch = Inr False \<and>
   transmitted (write_thunk state_mismatch True) = [] \<and>
   write_thunk state_mismatch True =
     Inr [LogError ''Can not write in the current state. Try erasing all non-volatile memory in the target.'']"
proof -
  have dev: "serialNumber (target state_mismatch) = Some 682000001"
    "pageSize_t (target state_mismatch) = Some 0x1000"
    by (simp_all add: state_mismatch_def flashState_def)
  have "write_thunk state_mismatch True \<noteq> Inr [LogError ''Select a device before writing'']"
    by (simp add: write_thunk_def canWrite_mismatch dev)
  with write_refused [OF canWrite_mismatch, of True] canWrite_mismatch show ?thesis by simp
qed

text \<open>
  Neither function reads the device information, and both have the UICR range as a
  constant.
\<close>

lemma withDeviceInfo_fields:
  "memMap (target (withDeviceInfo d appState)) = memMap (target appState)"
  "file_s (withDeviceInfo d appState) = file_s appState"
  "serialNumber (target (withDeviceInfo d appState)) = serialNumber (target appState)"
  "pageSize_t (target (withDeviceInfo d appState)) = pageSize_t (target appState)"
  by (simp_all add: withDeviceInfo_def)

lemma canWrite_withDeviceInfo: "canWrite (withDeviceInfo d appState) = canWrite appState"
  unfolding canWrite_def withDeviceInfo_fields ..

lemma write_withDeviceInfo:
  "write_thunk (withDeviceInfo d appState) upToDate = write_thunk appState upToDate"
  unfolding write_thunk_def canWrite_withDeviceInfo withDeviceInfo_fields ..

lemma canWrite_bytes:
  assumes "memMap (target appState) = Some targetImage"
  shows "canWrite appState = Inr
           ((\<forall>a. 0x10001000 \<le> a \<and> a < 0x10001400 \<longrightarrow> byteAt targetImage a = Some 0xFF) \<or>
            (\<forall>a. 0x10001000 \<le> a \<and> a < 0x10001400 \<longrightarrow>
               (\<forall>v. byteAt (flattenOverlaps (overlapMemoryMaps (memMaps (file_s appState)))) a = Some v
                    \<longrightarrow> byteAt targetImage a = Some v)))"
  using assms
  by (simp add: canWrite_def Let_def contains_blankUicr contains_uicr_slice)

lemma write_effects:
  assumes "canWrite appState = Inr True"
      and "serialNumber (target appState) = Some sn" "sn \<noteq> 0"
      and "pageSize_t (target appState) = Some p" "p \<noteq> 0"
      and "memMap (target appState) = Some targetImage"
  shows "write_thunk appState True =
      (if \<not> contains targetImage blankUicr
       then Inr [LogInfo ''Target's UICR is not blank, skipping UICR updates.'',
                 Dispatch WRITE_PROGRESS_START,
                 WriteHex sn (slice (paginate (flattenOverlaps (overlapMemoryMaps
                    (memMaps (file_s appState)))) p) 0 uicrAddr)]
       else Inr [Dispatch WRITE_PROGRESS_START,
                 WriteHex sn (paginate (flattenOverlaps (overlapMemoryMaps
                    (memMaps (file_s appState)))) p)])"
  using assms by (simp add: write_thunk_def Let_def)

text \<open>
  Claim C9 says that the range checked and excluded is the constant
  [0x10001000, 0x10001400) for every device. The range checked is that one; the range
  excluded is not: on \<^const>\<open>state_past_uicr\<close>, a state of the other device, the paginated files
  hold the byte 9 at 0x10001400, outside that range, and the payload is the empty map.
\<close>

theorem uicr_range_counterexample:
  "deviceInfo (target state_past_uicr) = otherDevice \<and>
   canWrite state_past_uicr = Inr True \<and>
   byteAt (the (memMap (target state_past_uicr))) 0x10001000 = Some 0 \<and>
   byteAt (paginate (flattenOverlaps (overlapMemoryMaps (memMaps (file_s state_past_uicr)))) 0x1000)
     0x10001400 = Some 9 \<and>
   transmitted (write_thunk state_past_uicr True) = [[]]"
proof -
  have nb: "\<not> contains [(0x10001000, [0])] blankUicr"
    by (rule not_blank) simp
  have f: "memMaps (file_s state_past_uicr) = [(''app.hex'', [(0x10001400, [9])])]"
    and m: "memMap (target state_past_uicr) = Some [(0x10001000, [0])]"
    and dev: "serialNumber (target state_past_uicr) = Some 682000001"
      "pageSize_t (target state_past_uicr) = Some 0x1000"
    and d: "deviceInfo (target state_past_uicr) = otherDevice"
    by (simp_all add: state_past_uicr_def withDeviceInfo_def flashState_def)
  have checked: "slice [(0x10001400, [9::byte])] uicrAddr uicrSize = []"
    by (simp add: slice_def sliceBlock_def uicrAddr_def uicrSize_def)
  have cw: "canWrite state_past_uicr = Inr True"
    by (simp add: canWrite_def f m nb flatten_single checked contains_empty)
  have pg: "paginate [(0x10001400, [9::byte])] 0x1000 = [(0x10001400, [9])]"
    by (simp add: paginate_def)
  have sl: "slice [(0x10001400, [9::byte])] 0 uicrAddr = []"
    by (simp add: slice_def sliceBlock_def uicrAddr_def)
  have "transmitted (write_thunk state_past_uicr True) = [[]]"
    by (simp add: write_thunk_def cw f m dev flatten_single pg nb sl)
  with cw d show ?thesis
    by (simp add: f m flatten_single pg)
qed

text \<open>
  Claim C9, amended. Whatever the device information of the target, \<^verbatim>\<open>canWrite\<close> checks
  the constant range [0x10001000, 0x10001400) (its verdict is that the target holds 0xFF
  all over it, or holds every byte the files have in it) and \<^verbatim>\<open>write\<close>, on a target whose
  UICR is not blank, leaves out the constant range of all addresses from 0x10001000
  upwards and keeps the paginated file data below; on a blank target it sends the whole
  paginated file data. Two states that differ only in the device information get the same
  verdict and the same effects, payload included.
\<close>

theorem uicr_range_constant:
  assumes f: "flattenedFileImage = flattenOverlaps (overlapMemoryMaps (memMaps (file_s appState)))"
      and pages: "pages = paginate flattenedFileImage p"
  shows "canWrite (withDeviceInfo d appState) = canWrite appState \<and>
         write_thunk (withDeviceInfo d appState) upToDate = write_thunk appState upToDate \<and>
         (memMap (target appState) = Some targetImage \<longrightarrow>
            canWrite (withDeviceInfo d appState) = Inr
              ((\<forall>a. 0x10001000 \<le> a \<and> a < 0x10001400 \<longrightarrow> byteAt targetImage a = Some 0xFF) \<or>
               (\<forall>a. 0x10001000 \<le> a \<and> a < 0x10001400 \<longrightarrow>
                  (\<forall>v. byteAt flattenedFileImage a = Some v \<longrightarrow> byteAt targetImage a = Some v)))) \<and>
         (memMap (target appState) = Some targetImage \<and>
          canWrite appState = Inr True \<and>
          serialNumber (target appState) = Some sn \<and> sn \<noteq> 0 \<and>
          pageSize_t (target appState) = Some p \<and> p \<noteq> 0 \<longrightarrow>
            ((\<forall>a. 0x10001000 \<le> a \<and> a < 0x10001400 \<longrightarrow> byteAt targetImage a = Some 0xFF) \<longrightarrow>
               transmitted (write_thunk (withDeviceInfo d appState) True) = [pages]) \<and>
            (\<not> (\<forall>a. 0x10001000 \<le> a \<and> a < 0x10001400 \<longrightarrow> byteAt targetImage a = Some 0xFF) \<longrightarrow>
               (\<exists>payload. transmitted (write_thunk (withDeviceInfo d appState) True) = [payload] \<and>
                  (\<forall>a. byteAt payload a = (if a < 0x10001000 then byteAt pages a else None)))))"
proof (intro conjI impI)
  show "canWrite (withDeviceInfo d appState) = canWrite appState"
    by (rule canWrite_withDeviceInfo)
  show "write_thunk (withDeviceInfo d appState) upToDate = write_thunk appState upToDate"
    by (rule write_withDeviceInfo)
next
  assume "memMap (target appState) = Some targetImage"
  from canWrite_bytes [OF this] show "canWrite (withDeviceInfo d appState) = Inr
      ((\<forall>a. 0x10001000 \<le> a \<and> a < 0x10001400 \<longrightarrow> byteAt targetImage a = Some 0xFF) \<or>
       (\<forall>a. 0x10001000 \<le> a \<and> a < 0x10001400 \<longrightarrow>
          (\<forall>v. byteAt flattenedFileImage a = Some v \<longrightarrow> byteAt targetImage a = Some v)))"
    by (simp add: canWrite_withDeviceInfo f)
next
  assume h: "memMap (target appState) = Some targetImage \<and>
          canWrite appState = Inr True \<and>
          serialNumber (target appState) = Some sn \<and> sn \<noteq> 0 \<and>
          pageSize_t (target appState) = Some p \<and> p \<noteq> 0"
    and blank: "\<forall>a. 0x10001000 \<le> a \<and> a < 0x10001400 \<longrightarrow> byteAt targetImage a = Some 0xFF"
  from blank have "contains targetImage blankUicr" by (simp add: contains_blankUicr)
  with h show "transmitted (write_thunk (withDeviceInfo d appState) True) = [pages]"
    by (simp add: write_withDeviceInfo write_effects [where sn = sn and p = p] pages f)
next
  assume h: "memMap (target appState) = Some targetImage \<and>
          canWrite appState = Inr True \<and>
          serialNumber (target appState) = Some sn \<and> sn \<noteq> 0 \<and>
          pageSize_t (target appState) = Some p \<and> p \<noteq> 0"
    and used: "\<not> (\<forall>a. 0x10001000 \<le> a \<and> a < 0x10001400 \<longrightarrow> byteAt targetImage a = Some 0xFF)"
  from used have nb: "\<not> contains targetImage blankUicr" by (simp add: contains_blankUicr)
  have sl: "byteAt (slice pages 0 uicrAddr) a = (if a < 0x10001000 then byteAt pages a else None)"
    for a by (simp add: byteAt_slice uicrAddr_def)
  from h nb have "transmitted (write_thunk (withDeviceInfo d appState) True) = [slice pages 0 uicrAddr]"
    by (simp add: write_withDeviceInfo write_effects [where sn = sn and p = p] pages f)
  with sl show "\<exists>payload. transmitted (write_thunk (withDeviceInfo d appState) True) = [payload] \<and>
      (\<forall>a. byteAt payload a = (if a < 0x10001000 then byteAt pages a else None))"
    by simp
qed

theorem uicr_range_constant_witness:
  "canWrite (withDeviceInfo otherDevice state_match) = canWrite state_match \<and>
   write_thunk (withDeviceInfo otherDevice state_match) True = write_thunk state_match True \<and>
   memMap (target state_match) = Some [(0x10001000, [0])] \<and>
   canWrite (withDeviceInfo otherDevice state_match) = Inr True \<and>
   serialNumber (target state_match) = Some 682000001 \<and>
   pageSize_t (target state_match) = Some 0x1000 \<and>
   paginate (flattenOverlaps (overlapMemoryMaps (memMaps (file_s state_match)))) 0x1000
     = [(0, [1, 2, 3, 4, 5, 6])] \<and>
   \<not> (\<forall>a. 0x10001000 \<le> a \<and> a < 0x10001400 \<longrightarrow> byteAt [(0x10001000, [0])] a = Some 0xFF) \<and>
   (\<exists>payload. transmitted (write_thunk (withDeviceInfo otherDevice state_match) True) = [payload] \<and>
      (\<forall>a. byteAt payload a = (if a < 0x10001000 then byteAt [(0, [1, 2, 3, 4, 5, 6])] a else None)))"
proof -
  have nb: "\<not> (\<forall>a. 0x10001000 \<le> a \<and> a < 0x10001400 \<longrightarrow> byteAt [(0x10001000, [0])] a = Some 0xFF)"
    using not_blank [of "[(0x10001000, [0])]"] unfolding contains_blankUicr by simp
  have m: "memMap (target state_match) = Some [(0x10001000, [0])]"
    and sn: "serialNumber (target state_match) = Some 682000001" "(682000001::nat) \<noteq> 0"
    and ps: "pageSize_t (target state_match) = Some 0x1000" "(0x1000::nat) \<noteq> 0"
    by (simp_all add: state_match_def flashState_def)
  have f: "[(0, [1, 2, 3, 4, 5, 6])] =
      flattenOverlaps (overlapMemoryMaps (memMaps (file_s state_match)))"
    by (simp add: state_match_def flashState_def flatten_single)
  have pages: "[(0, [1, 2, 3, 4, 5, 6])] = paginate [(0, [1, 2, 3, 4, 5, 6::byte])] 0x1000"
    by (simp add: paginate_def)
  note inst = uicr_range_constant [OF f pages, where d = otherDevice
      and upToDate = True and targetImage = "[(0x10001000, [0])]" and sn = 682000001]
  from inst have same: "canWrite (withDeviceInfo otherDevice state_match) = canWrite state_match"
    "write_thunk (withDeviceInfo otherDevice state_match) True = write_thunk state_match True"
    by blast+
  from inst m canWrite_match sn ps nb
  have payload: "\<exists>payload.
      transmitted (write_thunk (withDeviceInfo otherDevice state_match) True) = [payload] \<and>
      (\<forall>a. byteAt payload a = (if a < 0x10001000 then byteAt [(0, [1, 2, 3, 4, 5, 6])] a else None))"
    by blast
  have pg: "paginate (flattenOverlaps (overlapMemoryMaps (memMaps (file_s state_match)))) 0x1000
      = [(0, [1, 2, 3, 4, 5, 6])]"
    unfolding f [symmetric] pages [symmetric] ..
  from same canWrite_match have "canWrite (withDeviceInfo otherDevice state_match) = Inr True"
    by simp
  with same m sn(1) ps(1) pg nb payload show ?thesis
    by (intro conjI)
qed

text \<open>
  Claim C2 says that, when the UICR of the target is in use and the files agree with it,
  the payload leaves out the range [0x10001000, 0x10001400) and nothing else, so that file
  data above the UICR is still written. The payload is \<^verbatim>\<open>pages.slice(0, uicrAddr)\<close>: on
  \<^const>\<open>state_above\<close> the paginated files hold the byte 7 at 0x10002000 and the payload is
  the empty map.
\<close>

theorem write_payload_counterexample:
  "canWrite state_above = Inr True \<and>
   byteAt (the (memMap (target state_above))) 0x10001000 = Some 0 \<and>
   byteAt (paginate (flattenOverlaps (overlapMemoryMaps (memMaps (file_s state_above)))) 0x1000)
     0x10002000 = Some 7 \<and>
   transmitted (write_thunk state_above True) = [[]]"
proof -
  have nb: "\<not> contains [(0x10001000, [0])] blankUicr"
    by (rule not_blank) simp
  have f: "memMaps (file_s state_above) = [(''app.hex'', [(0x10002000, [7, 8])])]"
    and m: "memMap (target state_above) = Some [(0x10001000, [0])]"
    and dev: "serialNumber (target state_above) = Some 682000001"
      "pageSize_t (target state_above) = Some 0x1000"
    by (simp_all add: state_above_def flashState_def)
  have sl: "slice [(0x10002000, [7, 8::byte])] 0 uicrAddr = []"
    by (simp add: slice_def sliceBlock_def uicrAddr_def)
  have "transmitted (write_thunk state_above True) = [[]]"
    by (simp add: write_thunk_def canWrite_above f m dev flatten_single pages_above nb sl)
  then show ?thesis
    by (simp add: canWrite_above f m flatten_single pages_above)
qed

text \<open>
  Claim C2, amended. When \<^verbatim>\<open>canWrite\<close> is true, a device is selected and the files are up
  to date, one payload is handed to the probe. If the UICR of the target is not blank, the
  payload holds the paginated file data at every address below 0x10001000 and nothing at
  0x10001000 or above; if it is blank, the payload is the whole paginated file data.
\<close>

theorem write_payload:
  assumes cw: "canWrite appState = Inr True"
      and sn: "serialNumber (target appState) = Some sn" "sn \<noteq> 0"
      and ps: "pageSize_t (target appState) = Some p" "p \<noteq> 0"
      and m: "memMap (target appState) = Some targetImage"
      and pages: "pages = paginate (flattenOverlaps (overlapMemoryMaps (memMaps (file_s appState)))) p"
  shows "((\<forall>a. 0x10001000 \<le> a \<and> a < 0x10001400 \<longrightarrow> byteAt targetImage a = Some 0xFF) \<longrightarrow>
            transmitted (write_thunk appState True) = [pages]) \<and>
         (\<not> (\<forall>a. 0x10001000 \<le> a \<and> a < 0x10001400 \<longrightarrow> byteAt targetImage a = Some 0xFF) \<longrightarrow>
            (\<exists>payload. transmitted (write_thunk appState True) = [payload] \<and>
               (\<forall>a. byteAt payload a = (if a < 0x10001000 then byteAt pages a else None))))"
proof -
  have sl: "byteAt (slice pages 0 uicrAddr) a = (if a < 0x10001000 then byteAt pages a else None)" for a
    by (simp add: byteAt_slice uicrAddr_def)
  have w: "write_thunk appState True =
      (if \<not> contains targetImage blankUicr
       then Inr [LogInfo ''Target's UICR is not blank, skipping UICR updates.'',
                 Dispatch WRITE_PROGRESS_START, WriteHex sn (slice pages 0 uicrAddr)]
       else Inr [Dispatch WRITE_PROGRESS_START, WriteHex sn pages])"
    by (simp add: write_thunk_def cw sn ps m pages Let_def)
  show ?thesis
    unfolding contains_blankUicr [symmetric] using sl by (simp add: w)
qed

theorem write_payload_witness:
  "canWrite state_match = Inr True \<and>
   serialNumber (target state_match) = Some 682000001 \<and>
   pageSize_t (target state_match) = Some 0x1000 \<and>
   memMap (target state_match) = Some [(0x10001000, [0])] \<and>
   paginate (flattenOverlaps (overlapMemoryMaps (memMaps (file_s state_match)))) 0x1000
     = [(0, [1, 2, 3, 4, 5, 6])] \<and>
   \<not> (\<forall>a. 0x10001000 \<le> a \<and> a < 0x10001400 \<longrightarrow> byteAt [(0x10001000, [0])] a = Some 0xFF) \<and>
   (\<exists>payload. transmitted (write_thunk state_match True) = [payload] \<and>
      (\<forall>a. byteAt payload a = (if a < 0x10001000 then byteAt [(0, [1, 2, 3, 4, 5, 6])] a else None)))"
proof -
  have nb: "\<not> (\<forall>a. 0x10001000 \<le> a \<and> a < 0x10001400 \<longrightarrow> byteAt [(0x10001000, [0])] a = Some 0xFF)"
    using not_blank [of "[(0x10001000, [0])]"] unfolding contains_blankUicr by simp
  have m: "memMap (target state_match) = Some [(0x10001000, [0])]"
    and sn: "serialNumber (target state_match) = Some 682000001" "(682000001::nat) \<noteq> 0"
    and ps: "pageSize_t (target state_match) = Some 0x1000" "(0x1000::nat) \<noteq> 0"
    by (simp_all add: state_match_def flashState_def)
  have pages: "[(0, [1, 2, 3, 4, 5, 6])] =
      paginate (flattenOverlaps (overlapMemoryMaps (memMaps (file_s state_match)))) 0x1000"
    by (simp add: state_match_def flashState_def flatten_single paginate_def)
  from write_payload [OF canWrite_match sn ps m pages] nb canWrite_match m sn ps pages
  show ?thesis by simp
qed


section \<open>Region updates\<close>

subsection \<open>Immutable lists and page boundaries\<close>

lemma indexFrom_first:
  "k < length xs \<Longrightarrow> xs ! k = x \<Longrightarrow> \<forall>j<k. xs ! j \<noteq> x \<Longrightarrow> indexFrom i xs x = i + int k"
proof (induction xs arbitrary: i k)
  case Nil
  then show ?case by simp
next
  case (Cons y ys)
  show ?case
  proof (cases k)
    case 0
    with Cons.prems show ?thesis by simp
  next
    case (Suc k')
    from Cons.prems Suc have "y \<noteq> x" by auto
    moreover have "indexFrom (i + 1) ys x = (i + 1) + int k'"
    proof (rule Cons.IH)
      show "k' < length ys" using Cons.prems Suc by simp
      show "ys ! k' = x" using Cons.prems Suc by simp
      show "\<forall>j<k'. ys ! j \<noteq> x" using Cons.prems(3) Suc by auto
    qed
    ultimately show ?thesis using Suc by simp
  qed
qed

lemma indexOf_first:
  "k < length xs \<Longrightarrow> \<forall>j<k. xs ! j \<noteq> xs ! k \<Longrightarrow> indexOf xs (xs ! k) = int k"
  using indexFrom_first [of k xs "xs ! k" 0] by (simp add: indexOf_def)






subsection \<open>The removal loops\<close>

lemma first_index:
  "x \<in> set xs \<Longrightarrow> \<exists>k<length xs. xs ! k = x \<and> (\<forall>j<k. xs ! j \<noteq> x)"
proof (induction xs)
  case Nil
  then show ?case by simp
next
  case (Cons y ys)
  show ?case
  proof (cases "y = x")
    case True
    then have "0 < length (y # ys) \<and> (y # ys) ! 0 = x \<and> (\<forall>j<0. (y # ys) ! j \<noteq> x)" by simp
    then show ?thesis by blast
  next
    case False
    with Cons obtain k where k: "k < length ys" "ys ! k = x" "\<forall>j<k. ys ! j \<noteq> x" by auto
    have "Suc k < length (y # ys) \<and> (y # ys) ! Suc k = x \<and> (\<forall>j<Suc k. (y # ys) ! j \<noteq> x)"
      using k False by (auto simp: nth_Cons')
    then show ?thesis by blast
  qed
qed

lemma remove1_first:
  "k < length xs \<Longrightarrow> xs ! k = x \<Longrightarrow> \<forall>j<k. xs ! j \<noteq> x \<Longrightarrow>
     remove1 x xs = take k xs @ drop (Suc k) xs"
proof (induction xs arbitrary: k)
  case Nil
  then show ?case by simp
next
  case (Cons y ys)
  show ?case
  proof (cases k)
    case 0
    with Cons.prems show ?thesis by simp
  next
    case (Suc k')
    from Cons.prems Suc have "y \<noteq> x" by auto
    moreover have "remove1 x ys = take k' ys @ drop (Suc k') ys"
    proof (rule Cons.IH)
      show "k' < length ys" using Cons.prems Suc by simp
      show "ys ! k' = x" using Cons.prems Suc by simp
      show "\<forall>j<k'. ys ! j \<noteq> x" using Cons.prems(3) Suc by auto
    qed
    ultimately show ?thesis using Suc by simp
  qed
qed

lemma remove_at_indexOf:
  assumes "x \<in> set xs"
  shows "remove_at xs (indexOf xs x) = remove1 x xs"
proof -
  from first_index [OF assms] obtain k where
    k: "k < length xs" "xs ! k = x" "\<forall>j<k. xs ! j \<noteq> x" by blast
  then have "indexOf xs x = int k"
    using indexOf_first [of k xs] by simp
  then show ?thesis
    using k by (simp add: remove_at_def wrapIndex_def remove1_first)
qed

text \<open>
  A loop that walks a list and removes from the current list, by \<^verbatim>\<open>indexOf\<close>, every element
  with a property leaves exactly the elements without it.
\<close>

lemma remove_loop_invariant:
  assumes "filter (\<lambda>r. \<not> Q r) acc = filter (\<lambda>r. \<not> Q r) xs"
      and "mset (filter Q acc) = mset (filter Q rest)"
  shows "foldl (\<lambda>frs r. if Q r then remove_at frs (indexOf frs r) else frs) acc rest
           = filter (\<lambda>r. \<not> Q r) xs"
  using assms
proof (induction rest arbitrary: acc)
  case Nil
  then have "filter Q acc = []" by simp
  then have "filter (\<lambda>r. \<not> Q r) acc = acc"
    by (simp add: filter_empty_conv filter_id_conv)
  with Nil show ?case by simp
next
  case (Cons r rest)
  show ?case
  proof (cases "Q r")
    case False
    with Cons show ?thesis by simp
  next
    case True
    with Cons.prems(2) have "r \<in># mset (filter Q acc)" by simp
    then have mem: "r \<in> set acc" by simp
    have step: "remove_at acc (indexOf acc r) = remove1 r acc"
      using mem by (rule remove_at_indexOf)
    have keep: "filter (\<lambda>r. \<not> Q r) (remove1 r acc) = filter (\<lambda>r. \<not> Q r) xs"
      using True Cons.prems(1) by (simp add: filter_remove1)
    have "mset (filter Q (remove1 r acc)) = mset (filter Q acc) - {#r#}"
      using True by (simp add: filter_remove1)
    also have "\<dots> = mset (filter Q rest)"
      using True Cons.prems(2) by simp
    finally have count: "mset (filter Q (remove1 r acc)) = mset (filter Q rest)" .
    from Cons.IH [OF keep count] True step show ?thesis by simp
  qed
qed

lemma removeNone_filter: "removeNone frs = filter (\<lambda>r. name r \<noteq> NONE) frs"
  unfolding removeNone_def
  using remove_loop_invariant [of "\<lambda>r. name r = NONE" frs frs frs] by simp

lemma removeNoneBelow_filter:
  "removeNoneBelow bound frs = filter (\<lambda>r. \<not> (name r = NONE \<and> startAddress r < bound)) frs"
  unfolding removeNoneBelow_def
  using remove_loop_invariant [of "\<lambda>r. name r = NONE \<and> startAddress r < bound" frs frs frs]
  by simp

lemma set_set_at: "set (set_at xs i v) \<subseteq> insert v (set xs)"
  using set_update_subset_insert [of xs _ v] by (auto simp: set_at_def Let_def)

text \<open>
  The scan finds the start of an application only in a list that has an Application
  region, and the merge then finds that region: \<^verbatim>\<open>updateFileAppRegions\<close> never ends with
  an exception.
\<close>

lemma scan_appStart:
  "appStartAddress (foldl (scanStep tbl) sc frs) = Some s \<Longrightarrow>
     appStartAddress sc = Some s \<or> (\<exists>r \<in> set frs. name r = APPLICATION)"
proof (induction frs arbitrary: sc)
  case Nil
  then show ?case by simp
next
  case (Cons r frs)
  from Cons.prems have "appStartAddress (foldl (scanStep tbl) (scanStep tbl sc r) frs) = Some s"
    by simp
  from Cons.IH [OF this]
  have "appStartAddress (scanStep tbl sc r) = Some s \<or> (\<exists>r \<in> set frs. name r = APPLICATION)" .
  moreover have "appStartAddress (scanStep tbl sc r) =
      (if name r = APPLICATION then Some (startAddress r) else appStartAddress sc)"
    by (simp add: scanStep_def)
  ultimately show ?case by (cases "name r = APPLICATION") auto
qed

lemma mergeAppRegions_no_exception:
  "mergeAppRegions tbl (scanRegions tbl frs) frs \<noteq> Inl e"
proof (cases tbl)
  case None
  then show ?thesis by (simp add: mergeAppRegions_def)
next
  case (Some bl)
  show ?thesis
  proof (cases "appStartAddress (scanRegions tbl frs)")
    case None
    with Some show ?thesis by (simp add: mergeAppRegions_def)
  next
    case s: (Some s)
    show ?thesis
    proof (cases "appEndAddress (scanRegions tbl frs)")
      case None
      with Some s show ?thesis by (simp add: mergeAppRegions_def)
    next
      case e': (Some e')
      from s have "appStartAddress (foldl (scanStep tbl)
          \<lparr>detected = {}, appStartAddress = None, appEndAddress = None\<rparr> frs) = Some s"
        by (simp add: scanRegions_def)
      from scan_appStart [OF this] obtain r where r: "r \<in> set frs" "name r = APPLICATION"
        by auto
      then have "r \<in> set (removeNoneBelow (startAddress bl) frs)"
        by (simp add: removeNoneBelow_filter)
      with r(2) obtain a where
        "List.find (\<lambda>r. name r = APPLICATION) (removeNoneBelow (startAddress bl) frs) = Some a"
        by (cases "List.find (\<lambda>r. name r = APPLICATION) (removeNoneBelow (startAddress bl) frs)")
           (auto simp: find_None_iff)
      with Some s e' show ?thesis
        by (simp add: mergeAppRegions_def Let_def)
    qed
  qed
qed

lemma updateFileAppRegions_no_exception: "snd (updateFileAppRegions st) = None"
  by (simp add: updateFileAppRegions_def Let_def mergeAppRegions_no_exception split: sum.split)

subsection \<open>The bootloader region\<close>

text \<open>
  Whenever \<^verbatim>\<open>updateFileBlRegion\<close> dispatches a list, no region named NONE is left in it,
  wherever the region was.
\<close>

lemma updateFileBlRegion_leaves_no_NONE:
  assumes "updateFileBlRegion st = [FILE_REGIONS_KNOWN rs]" "r \<in> set rs"
  shows "name r \<noteq> NONE"
proof (cases "List.find (\<lambda>r. name r = BOOTLOADER) (regions (file_s st))")
  case None
  with assms(1) show ?thesis by (simp add: updateFileBlRegion_def)
next
  case (Some bl)
  let ?frs = "regions (file_s st)"
  let ?end = "foldl (blEndStep bl (romSize (deviceInfo (target st)))) None ?frs"
  show ?thesis
  proof (cases ?end)
    case None
    with Some assms(1) show ?thesis by (simp add: updateFileBlRegion_def Let_def)
  next
    case e: (Some e)
    let ?bl' = "bl\<lparr>regionSize := e - startAddress bl\<rparr>"
    have "updateFileBlRegion st =
        [FILE_REGIONS_KNOWN (set_at (removeNone ?frs) (indexOf (removeNone ?frs) bl) ?bl')]"
      by (simp add: updateFileBlRegion_def Let_def Some e)
    with assms(1)
    have rs: "rs = set_at (removeNone ?frs) (indexOf (removeNone ?frs) bl) ?bl'"
      by simp
    from Some have "name bl = BOOTLOADER"
      unfolding find_Some_iff by blast
    then have bl': "name ?bl' = BOOTLOADER" by simp
    from assms(2) set_set_at [of "removeNone ?frs" "indexOf (removeNone ?frs) bl" ?bl']
    have "r = ?bl' \<or> r \<in> set (removeNone ?frs)"
      unfolding rs by blast
    then show ?thesis
    proof
      assume "r = ?bl'"
      with bl' show ?thesis by simp
    next
      assume "r \<in> set (removeNone ?frs)"
      then show ?thesis by (simp add: removeNone_filter)
    qed
  qed
qed


text \<open>
  Claim C3 has the unnamed regions between the start of the bootloader and the end of the
  ROM merged into the bootloader, and only those removed from the list. Once a gap is
  found, the second loop of \<^verbatim>\<open>updateFileBlRegion\<close> removes every region named NONE, wherever
  it lies: on \<^const>\<open>state_bl_gap\<close> the unnamed region at 0x1000, far below the bootloader at
  0x70000, is gone from the list that is dispatched. The loop of \<^verbatim>\<open>updateFileAppRegions\<close>
  that does the same work for the application tests the address as well.
\<close>

theorem updateFileBlRegion_removes_region_below:
  "updateFileBlRegion state_bl_gap = [FILE_REGIONS_KNOWN [regionAt BOOTLOADER 0x70000 0x2000]]"
  by (simp add: updateFileBlRegion_def state_bl_gap_def regionState_def regionAt_def
      exampleDevice_def blEndStep_def removeNone_def remove_at_def indexOf_def wrapIndex_def
      set_at_def Let_def)

subsection \<open>The application label\<close>







subsection \<open>The application region\<close>

text \<open>
  Claim C6 has the unnamed regions below the bootloader and above the start of the
  application, and only those, folded into the application. The loops of
  \<^verbatim>\<open>updateFileAppRegions\<close> never compare an unnamed region with the start of the
  application (the loop of \<^verbatim>\<open>updateFileBlRegion\<close> does compare it with the start of the
  bootloader): on \<^const>\<open>state_app_above_gap\<close> the unnamed region at 0x20000, below the
  application at 0x26000, is removed and the application gets the size
  0x21000 - 0x26000, a negative number.
\<close>

theorem updateFileAppRegions_negative_size:
  "updateFileAppRegions state_app_above_gap =
     ([FILE_REGIONS_KNOWN [regionAt NONE 0x20000 0x1000, regionAt APPLICATION 0x26000 0x2000],
       FILE_REGION_NAMES_KNOWN {APPLICATION},
       FILE_REGIONS_KNOWN [regionAt APPLICATION 0x26000 (- 0x5000)]], None)"
  by (simp add: updateFileAppRegions_def state_app_above_gap_def regionState_def regionAt_def
      exampleDevice_def relabelAppRegion_def removeAppLabel_def scanRegions_def scanStep_def
      mergeAppRegions_def removeNoneBelow_def pageBoundary_def findStart_def
      remove_at_def indexOf_def wrapIndex_def set_at_def Let_def)

end
